theory Spec2Isabelle
  imports Complex_Main "HOL-Library.Multiset"
begin

section \<open>The problem registry of the community problem solver API\<close>

text \<open>
  The service keeps two module-level variables, \<^verbatim>\<open>problems\<close> (an array) and
  \<^verbatim>\<open>nextId\<close> (a counter), and route handlers that read and write them.
  Each handler is embedded as a function from the registry (and the parts of the
  request it reads) to its answer and the registry it leaves behind; the answer
  is the \<^verbatim>\<open>data\<close> of the JSON response, or \<open>NotFound\<close> for status 404 and
  \<open>InvalidInput\<close> for status 400. The routes \<^verbatim>\<open>/\<close> and \<^verbatim>\<open>/health\<close> report
  without touching a record and are left out. The two source files
  \<^verbatim>\<open>part_000\<close> and \<^verbatim>\<open>part_001\<close> differ in the route prefix only; the handlers
  are the same, so one embedding stands for both.
\<close>

subsection \<open>JavaScript values\<close>

text \<open>
  Request bodies and query strings are parsed into JavaScript values before a
  handler sees them, and the handlers test them with truthiness and \<^verbatim>\<open>===\<close>.
  A number is kept as a real (every finite double is one); \<^verbatim>\<open>NaN\<close> cannot come
  out of a JSON or url-encoded body.
\<close>

datatype jsval =
    JUndefined
  | JNull
  | JBool bool
  | JNum real
  | JStr string
  | JArr "jsval list"
  | JObj "(string \<times> jsval) list"

text \<open>ToBoolean: what \<^verbatim>\<open>!v\<close>, \<^verbatim>\<open>if (v)\<close> and \<^verbatim>\<open>v && e\<close> look at.\<close>

fun truthy :: "jsval \<Rightarrow> bool" where
  "truthy JUndefined = False"
| "truthy JNull = False"
| "truthy (JBool b) = b"
| "truthy (JNum x) = (x \<noteq> 0)"
| "truthy (JStr s) = (s \<noteq> [])"
| "truthy (JArr vs) = True"
| "truthy (JObj kvs) = True"

text \<open>
  Strict equality \<^verbatim>\<open>===\<close>. Arrays and objects are compared by identity; in this
  program one operand is always a string literal or a value parsed afresh from the
  current request, so two arrays or objects are never the same one.
\<close>

fun strict_eq :: "jsval \<Rightarrow> jsval \<Rightarrow> bool" where
  "strict_eq JUndefined JUndefined = True"
| "strict_eq JNull JNull = True"
| "strict_eq (JBool a) (JBool b) = (a = b)"
| "strict_eq (JNum a) (JNum b) = (a = b)"
| "strict_eq (JStr a) (JStr b) = (a = b)"
| "strict_eq v w = False"

text \<open>
  Reading a property of a parsed object (\<^verbatim>\<open>const { title } = req.body\<close>): the
  value stored under the key, \<^verbatim>\<open>undefined\<close> when the key is missing. A parsed
  object has each key once.
\<close>

type_synonym jsobject = "(string \<times> jsval) list"

definition lookup :: "jsobject \<Rightarrow> string \<Rightarrow> jsval" where
  "lookup obj k = (case map_of obj k of None \<Rightarrow> JUndefined | Some v \<Rightarrow> v)"

subsection \<open>parseInt\<close>

text \<open>
  \<^verbatim>\<open>parseInt(req.params.id)\<close> is called with one argument. Following ECMAScript:
  leading white space is dropped, a sign is read, a prefix \<^verbatim>\<open>0x\<close> or \<^verbatim>\<open>0X\<close>
  switches to radix 16, the longest run of digits of the radix is read, and the
  result is \<^verbatim>\<open>NaN\<close> (here \<open>None\<close>) when that run is empty. A \<open>char\<close> is a code unit
  below 256; the white space among those is TAB, LF, VT, FF, CR, SP and NBSP.
  The result is the integer read, without the rounding to a double, which is exact
  below \<open>2 ^ 53\<close>.
\<close>

definition isWhiteSpace :: "char \<Rightarrow> bool" where
  "isWhiteSpace c = (of_char c \<in> {9, 10, 11, 12, 13, 32, 160 :: nat})"

definition digitValue :: "char \<Rightarrow> nat option" where
  "digitValue c =
     (let n = of_char c :: nat in
      if 48 \<le> n \<and> n \<le> 57 then Some (n - 48)
      else if 97 \<le> n \<and> n \<le> 122 then Some (n - 87)
      else if 65 \<le> n \<and> n \<le> 90 then Some (n - 55)
      else None)"

definition radixDigit :: "nat \<Rightarrow> char \<Rightarrow> bool" where
  "radixDigit R c = (case digitValue c of None \<Rightarrow> False | Some d \<Rightarrow> d < R)"

definition mathInt :: "nat \<Rightarrow> string \<Rightarrow> nat" where
  "mathInt R Z = foldl (\<lambda>a c. a * R + (case digitValue c of None \<Rightarrow> 0 | Some d \<Rightarrow> d)) 0 Z"

definition parseInt :: "string \<Rightarrow> int option" where
  "parseInt inputString =
     (let S0 = dropWhile isWhiteSpace inputString;
          sign = (if S0 \<noteq> [] \<and> hd S0 = CHR ''-'' then - 1 else 1 :: int);
          S1 = (if S0 \<noteq> [] \<and> (hd S0 = CHR ''+'' \<or> hd S0 = CHR ''-'') then tl S0 else S0);
          hex = (2 \<le> length S1 \<and> (take 2 S1 = ''0x'' \<or> take 2 S1 = ''0X''));
          R = (if hex then 16 else 10);
          S2 = (if hex then drop 2 S1 else S1);
          Z = takeWhile (radixDigit R) S2
      in if Z = [] then None else Some (sign * int (mathInt R Z)))"

subsection \<open>Records and the registry\<close>

text \<open>
  A time stamp is the time value of a \<^verbatim>\<open>Date\<close> (milliseconds since the epoch), which
  \<^verbatim>\<open>toISOString\<close> prints; a handler gets as arguments the readings of the clock
  that its calls of \<^verbatim>\<open>new Date()\<close> make. Numbers that the program only counts
  with (\<^verbatim>\<open>id\<close>, \<^verbatim>\<open>upvotes\<close>, \<^verbatim>\<open>nextId\<close>) are integers; JavaScript's numbers
  agree with them up to \<open>2 ^ 53\<close>. The field \<^verbatim>\<open>id\<close> is written \<open>id'\<close>, and
  further down \<^verbatim>\<open>total\<close> and \<^verbatim>\<open>open\<close> are written \<open>total'\<close> and \<open>open'\<close>,
  since HOL has constants of these names.
\<close>

type_synonym timestamp = int

record problem =
  id' :: int
  title :: jsval
  description :: jsval
  category :: jsval
  location :: jsval
  upvotes :: int
  status :: jsval
  createdAt :: timestamp
  updatedAt :: timestamp

record registry =
  problems :: "problem list"
  nextId :: int

definition init :: registry where
  "init = \<lparr>problems = [], nextId = 1\<rparr>"

datatype error = NotFound | InvalidInput

subsection \<open>Array methods\<close>

text \<open>\<^verbatim>\<open>findIndex\<close>: the first index whose element passes, \<open>None\<close> for \<^verbatim>\<open>-1\<close>.\<close>

fun findIndex :: "('a \<Rightarrow> bool) \<Rightarrow> 'a list \<Rightarrow> nat option" where
  "findIndex P [] = None"
| "findIndex P (x # xs) = (if P x then Some 0 else map_option Suc (findIndex P xs))"

text \<open>\<^verbatim>\<open>splice(i, 1)\<close>: the array without the element at index \<open>i\<close>.\<close>

definition splice1 :: "nat \<Rightarrow> 'a list \<Rightarrow> 'a list" where
  "splice1 i xs = take i xs @ drop (Suc i) xs"

text \<open>
  \<^verbatim>\<open>sort(cmp)\<close> with a comparator: the sort is stable (ECMAScript 2019), so it
  is an insertion from the right that puts an element before the first one it
  does not compare greater than.
\<close>

fun place :: "('a \<Rightarrow> 'a \<Rightarrow> int) \<Rightarrow> 'a \<Rightarrow> 'a list \<Rightarrow> 'a list" where
  "place cmp x [] = [x]"
| "place cmp x (y # ys) = (if cmp x y \<le> 0 then x # y # ys else y # place cmp x ys)"

definition array_sort :: "('a \<Rightarrow> 'a \<Rightarrow> int) \<Rightarrow> 'a list \<Rightarrow> 'a list" where
  "array_sort cmp xs = foldr (place cmp) xs []"

text \<open>The test \<^verbatim>\<open>p.id === parseInt(req.params.id)\<close>; \<^verbatim>\<open>NaN\<close> equals nothing.\<close>

definition id_is :: "string \<Rightarrow> problem \<Rightarrow> bool" where
  "id_is seg p = (parseInt seg = Some (id' p))"

subsection \<open>The handlers\<close>

text \<open>\<^verbatim>\<open>GET /problems\<close>\<close>

definition get_problems :: "jsobject \<Rightarrow> registry \<Rightarrow> problem list" where
  "get_problems query s =
     (let statusQ = lookup query ''status'';
          categoryQ = lookup query ''category'';
          filteredProblems = problems s;
          filteredProblems = (if truthy statusQ
             then filter (\<lambda>p. strict_eq (status p) statusQ) filteredProblems
             else filteredProblems);
          filteredProblems = (if truthy categoryQ
             then filter (\<lambda>p. strict_eq (category p) categoryQ) filteredProblems
             else filteredProblems)
      in filteredProblems)"

text \<open>\<^verbatim>\<open>GET /problems/:id\<close>\<close>

definition get_problem :: "string \<Rightarrow> registry \<Rightarrow> error + problem" where
  "get_problem seg s =
     (case find (id_is seg) (problems s) of
        None \<Rightarrow> Inl NotFound
      | Some p \<Rightarrow> Inr p)"

text \<open>
  \<^verbatim>\<open>POST /problems\<close>. The handler reads the clock twice, once for each time
  stamp; \<open>t1\<close> and \<open>t2\<close> are the two readings.
\<close>

definition post_problems ::
  "jsobject \<Rightarrow> timestamp \<Rightarrow> timestamp \<Rightarrow> registry \<Rightarrow> (error + problem) \<times> registry" where
  "post_problems body t1 t2 s =
     (let titleB = lookup body ''title'';
          descriptionB = lookup body ''description'';
          categoryB = lookup body ''category'';
          locationB = lookup body ''location''
      in if \<not> truthy titleB \<or> \<not> truthy descriptionB \<or> \<not> truthy categoryB \<or> \<not> truthy locationB
         then (Inl InvalidInput, s)
         else
           let newProblem = \<lparr>id' = nextId s, title = titleB, description = descriptionB,
                              category = categoryB, location = locationB, upvotes = 0,
                              status = JStr ''open'', createdAt = t1, updatedAt = t2\<rparr>
           in (Inr newProblem,
               s\<lparr>problems := problems s @ [newProblem], nextId := nextId s + 1\<rparr>))"

text \<open>
  \<^verbatim>\<open>PUT /problems/:id\<close>. \<^verbatim>\<open>...(title && { title })\<close> spreads the new title when
  it is truthy and nothing otherwise.
\<close>

definition put_problem ::
  "string \<Rightarrow> jsobject \<Rightarrow> timestamp \<Rightarrow> registry \<Rightarrow> (error + problem) \<times> registry" where
  "put_problem seg body now s =
     (case findIndex (id_is seg) (problems s) of
        None \<Rightarrow> (Inl NotFound, s)
      | Some problemIndex \<Rightarrow>
          let titleB = lookup body ''title'';
              descriptionB = lookup body ''description'';
              categoryB = lookup body ''category'';
              locationB = lookup body ''location'';
              statusB = lookup body ''status'';
              old = problems s ! problemIndex;
              new = old\<lparr>title := (if truthy titleB then titleB else title old),
                        description := (if truthy descriptionB then descriptionB else description old),
                        category := (if truthy categoryB then categoryB else category old),
                        location := (if truthy locationB then locationB else location old),
                        status := (if truthy statusB then statusB else status old),
                        updatedAt := now\<rparr>
          in (Inr new, s\<lparr>problems := (problems s)[problemIndex := new]\<rparr>))"

text \<open>\<^verbatim>\<open>POST /problems/:id/upvote\<close>\<close>

definition post_upvote ::
  "string \<Rightarrow> timestamp \<Rightarrow> registry \<Rightarrow> (error + problem) \<times> registry" where
  "post_upvote seg now s =
     (case findIndex (id_is seg) (problems s) of
        None \<Rightarrow> (Inl NotFound, s)
      | Some problemIndex \<Rightarrow>
          let old = problems s ! problemIndex;
              new = old\<lparr>upvotes := upvotes old + 1, updatedAt := now\<rparr>
          in (Inr new, s\<lparr>problems := (problems s)[problemIndex := new]\<rparr>))"

text \<open>
  \<^verbatim>\<open>PATCH /problems/:id/status\<close>.
  \<^verbatim>\<open>['open', 'in-progress', 'resolved'].includes(status)\<close> compares with three
  strings.
\<close>

definition valid_status :: "jsval \<Rightarrow> bool" where
  "valid_status v = (v \<in> {JStr ''open'', JStr ''in-progress'', JStr ''resolved''})"

definition patch_status ::
  "string \<Rightarrow> jsobject \<Rightarrow> timestamp \<Rightarrow> registry \<Rightarrow> (error + problem) \<times> registry" where
  "patch_status seg body now s =
     (case findIndex (id_is seg) (problems s) of
        None \<Rightarrow> (Inl NotFound, s)
      | Some problemIndex \<Rightarrow>
          let statusB = lookup body ''status''
          in if \<not> valid_status statusB then (Inl InvalidInput, s)
             else
               let old = problems s ! problemIndex;
                   new = old\<lparr>status := statusB, updatedAt := now\<rparr>
               in (Inr new, s\<lparr>problems := (problems s)[problemIndex := new]\<rparr>))"

text \<open>\<^verbatim>\<open>DELETE /problems/:id\<close>\<close>

definition delete_problem :: "string \<Rightarrow> registry \<Rightarrow> (error + problem) \<times> registry" where
  "delete_problem seg s =
     (case findIndex (id_is seg) (problems s) of
        None \<Rightarrow> (Inl NotFound, s)
      | Some problemIndex \<Rightarrow>
          let deletedProblem = problems s ! problemIndex
          in (Inr deletedProblem, s\<lparr>problems := splice1 problemIndex (problems s)\<rparr>))"

text \<open>
  \<^verbatim>\<open>GET /stats\<close>. The counts are taken first; \<^verbatim>\<open>problems.sort\<close> then reorders the
  registry's own array, and \<^verbatim>\<open>slice(0, 5)\<close> copies its first five elements.
\<close>

record categories =
  infrastructure :: nat
  safety :: nat
  environment :: nat
  education :: nat
  health :: nat

record stats =
  total' :: nat
  open' :: nat
  inProgress :: nat
  resolved :: nat
  categories :: categories
  topUpvoted :: "problem list"

definition count_status :: "string \<Rightarrow> problem list \<Rightarrow> nat" where
  "count_status v ps = length (filter (\<lambda>p. strict_eq (status p) (JStr v)) ps)"

definition count_category :: "string \<Rightarrow> problem list \<Rightarrow> nat" where
  "count_category v ps = length (filter (\<lambda>p. strict_eq (category p) (JStr v)) ps)"

definition by_upvotes :: "problem \<Rightarrow> problem \<Rightarrow> int" where
  "by_upvotes a b = upvotes b - upvotes a"

definition get_stats :: "registry \<Rightarrow> stats \<times> registry" where
  "get_stats s =
     (let ps = problems s;
          sorted_ps = array_sort by_upvotes ps
      in (\<lparr>total' = length ps,
           open' = count_status ''open'' ps,
           inProgress = count_status ''in-progress'' ps,
           resolved = count_status ''resolved'' ps,
           categories = \<lparr>infrastructure = count_category ''infrastructure'' ps,
                          safety = count_category ''safety'' ps,
                          environment = count_category ''environment'' ps,
                          education = count_category ''education'' ps,
                          health = count_category ''health'' ps\<rparr>,
           topUpvoted = take 5 sorted_ps\<rparr>,
          s\<lparr>problems := sorted_ps\<rparr>))"

subsection \<open>Sequences of requests\<close>

datatype request =
    GetProblems jsobject
  | GetProblem string
  | PostProblems jsobject timestamp timestamp
  | PutProblem string jsobject timestamp
  | PostUpvote string timestamp
  | PatchStatus string jsobject timestamp
  | DeleteProblem string
  | GetStats

datatype payload = One problem | Many "problem list" | Statistics stats

definition one :: "(error + problem) \<times> registry \<Rightarrow> (error + payload) \<times> registry" where
  "one r = (map_sum (\<lambda>e. e) One (fst r), snd r)"

fun handle :: "request \<Rightarrow> registry \<Rightarrow> (error + payload) \<times> registry" where
  "handle (GetProblems query) s = (Inr (Many (get_problems query s)), s)"
| "handle (GetProblem seg) s = one (get_problem seg s, s)"
| "handle (PostProblems body t1 t2) s = one (post_problems body t1 t2 s)"
| "handle (PutProblem seg body now) s = one (put_problem seg body now s)"
| "handle (PostUpvote seg now) s = one (post_upvote seg now s)"
| "handle (PatchStatus seg body now) s = one (patch_status seg body now s)"
| "handle (DeleteProblem seg) s = one (delete_problem seg s)"
| "handle GetStats s = (Inr (Statistics (fst (get_stats s))), snd (get_stats s))"

text \<open>The registry after a sequence of requests, served one after the other.\<close>

fun serve :: "registry \<Rightarrow> request list \<Rightarrow> registry" where
  "serve s [] = s"
| "serve s (r # rs) = serve (snd (handle r s)) rs"

text \<open>The ids of the records that the successful creations of a sequence returned.\<close>

fun created :: "request \<Rightarrow> error + payload \<Rightarrow> int list" where
  "created (PostProblems body t1 t2) (Inr (One p)) = [id' p]"
| "created r a = []"

fun assigned_ids :: "registry \<Rightarrow> request list \<Rightarrow> int list" where
  "assigned_ids s [] = []"
| "assigned_ids s (r # rs) =
     created r (fst (handle r s)) @ assigned_ids (snd (handle r s)) rs"

subsection \<open>The ids in the registry\<close>

definition ids :: "registry \<Rightarrow> int list" where
  "ids s = map id' (problems s)"

text \<open>Every stored id is below the counter, and no two records share one.\<close>

definition ids_below :: "registry \<Rightarrow> bool" where
  "ids_below s = (distinct (ids s) \<and> (\<forall>i\<in>set (ids s). i < nextId s))"

subsection \<open>Notions of the specification\<close>

text \<open>A path segment addresses a stored record when some record's id is what it parses to.\<close>

definition present :: "string \<Rightarrow> registry \<Rightarrow> bool" where
  "present seg s = list_ex (id_is seg) (problems s)"

text \<open>The specification's words for a field that makes a creation invalid.\<close>

definition missing_or_empty :: "jsval \<Rightarrow> bool" where
  "missing_or_empty v = (v = JUndefined \<or> v = JNull \<or> v = JStr [])"

text \<open>What the handler of \<^verbatim>\<open>POST /problems\<close> asks of the four fields: each is truthy.\<close>

definition all_given :: "jsobject \<Rightarrow> bool" where
  "all_given body = (truthy (lookup body ''title'') \<and> truthy (lookup body ''description'')
     \<and> truthy (lookup body ''category'') \<and> truthy (lookup body ''location''))"

text \<open>
  A filter of \<^verbatim>\<open>GET /problems\<close> and a field: a falsy filter (missing or empty)
  asks nothing, any other asks for strict equality.
\<close>

definition matches :: "jsval \<Rightarrow> jsval \<Rightarrow> bool" where
  "matches flt v = (if truthy flt then strict_eq v flt else True)"

text \<open>
  The decimal integer that a path segment begins with: its leading characters
  \<^verbatim>\<open>0\<close> to \<^verbatim>\<open>9\<close> (code units 48 to 57), read in base ten.
\<close>

definition isDecimalDigit :: "char \<Rightarrow> bool" where
  "isDecimalDigit c = (48 \<le> (of_char c :: nat) \<and> (of_char c :: nat) \<le> 57)"

definition leading_digits :: "string \<Rightarrow> string" where
  "leading_digits seg = takeWhile isDecimalDigit seg"

definition decimal_value :: "string \<Rightarrow> nat" where
  "decimal_value ds = foldl (\<lambda>a c. a * 10 + (of_char c - 48)) 0 ds"

definition hex_prefixed :: "string \<Rightarrow> bool" where
  "hex_prefixed seg = (take 2 seg = ''0x'' \<or> take 2 seg = ''0X'')"

subsection \<open>Example requests and registries\<close>

text \<open>
  The body of the specification's end-to-end example, the registry after its
  creation at time 1000, and the record that registry holds.
\<close>

definition pothole :: jsobject where
  "pothole = [(''title'', JStr ''Pothole''), (''description'', JStr ''Large pothole''),
              (''category'', JStr ''infrastructure''), (''location'', JStr ''Main St'')]"

definition one_pothole :: registry where
  "one_pothole = serve init [PostProblems pothole 1000 1000]"

definition pothole_record :: problem where
  "pothole_record = \<lparr>id' = 1, title = JStr ''Pothole'', description = JStr ''Large pothole'',
     category = JStr ''infrastructure'', location = JStr ''Main St'',
     upvotes = 0, status = JStr ''open'', createdAt = 1000, updatedAt = 1000\<rparr>"

text \<open>
  Bodies: the status that the specification asks the status change to reject, a
  title that is \<^verbatim>\<open>false\<close>, and five empty strings.
\<close>

definition bogus :: jsobject where
  "bogus = [(''status'', JStr ''bogus'')]"

definition false_title :: jsobject where
  "false_title = [(''title'', JBool False), (''description'', JStr ''Large pothole''),
                  (''category'', JStr ''infrastructure''), (''location'', JStr ''Main St'')]"

definition empty_strings :: jsobject where
  "empty_strings = [(''title'', JStr []), (''description'', JStr []), (''category'', JStr []),
                    (''location'', JStr []), (''status'', JStr [])]"

text \<open>
  Queries: \<^verbatim>\<open>?status=\<close> and \<^verbatim>\<open>?status=resolved\<close>; and two reports, the second
  of them resolved.
\<close>

definition empty_status :: jsobject where
  "empty_status = [(''status'', JStr [])]"

definition resolved_only :: jsobject where
  "resolved_only = [(''status'', JStr ''resolved'')]"

definition two_reports :: registry where
  "two_reports = serve init [PostProblems pothole 1000 1000, PostProblems pothole 1001 1001,
     PatchStatus ''2'' resolved_only 2000]"

section \<open>Properties\<close>

subsection \<open>Array methods\<close>

lemma findIndex_None: "(findIndex P xs = None) = (\<forall>x\<in>set xs. \<not> P x)"
  by (induction xs) auto

lemma findIndex_Some:
  "findIndex P xs = Some i \<Longrightarrow> i < length xs \<and> P (xs ! i) \<and> (\<forall>j<i. \<not> P (xs ! j))"
proof (induction xs arbitrary: i)
  case Nil
  then show ?case by simp
next
  case (Cons x xs)
  show ?case
  proof (cases "P x")
    case True
    with Cons.prems show ?thesis by simp
  next
    case False
    with Cons.prems obtain k where k: "findIndex P xs = Some k" "i = Suc k"
      by auto
    from Cons.IH [OF k(1)] False k(2) show ?thesis
      by (auto simp: less_Suc_eq_0_disj)
  qed
qed

lemma find_findIndex: "find P xs = map_option (\<lambda>i. xs ! i) (findIndex P xs)"
  by (induction xs) (auto simp: option.map_comp comp_def)

lemma find_update_hit:
  "findIndex P xs = Some i \<Longrightarrow> P y \<Longrightarrow> find P (xs[i := y]) = Some y"
proof (induction xs arbitrary: i)
  case Nil
  then show ?case by simp
next
  case (Cons x xs)
  then show ?case by (cases "P x") auto
qed

lemma strict_eq_JStr [simp]: "strict_eq v (JStr a) = (v = JStr a)"
  by (cases v) auto

lemma mset_place: "mset (place cmp x xs) = add_mset x (mset xs)"
  by (induction xs) auto

lemma mset_array_sort: "mset (array_sort cmp xs) = mset xs"
  unfolding array_sort_def by (induction xs) (auto simp: mset_place)

lemma set_place: "set (place cmp x xs) = insert x (set xs)"
  by (induction xs) auto

lemma place_ordered:
  "sorted_wrt (\<lambda>a b. by_upvotes a b \<le> 0) xs \<Longrightarrow> sorted_wrt (\<lambda>a b. by_upvotes a b \<le> 0) (place by_upvotes x xs)"
  by (induction xs) (auto simp: set_place by_upvotes_def)

lemma array_sort_ordered: "sorted_wrt (\<lambda>a b. by_upvotes a b \<le> 0) (array_sort by_upvotes xs)"
  unfolding array_sort_def by (induction xs) (auto simp: place_ordered)

lemma splice1_filter:
  assumes "distinct (map f xs)" "i < length xs"
  shows "splice1 i xs = filter (\<lambda>q. f q \<noteq> f (xs ! i)) xs"
proof -
  have xs: "xs = take i xs @ xs ! i # drop (Suc i) xs"
    using assms(2) by (rule id_take_nth_drop)
  have d: "distinct (map f (take i xs) @ f (xs ! i) # map f (drop (Suc i) xs))"
    using assms(1) by (subst (asm) xs) simp
  then have a: "\<forall>q\<in>set (take i xs). f q \<noteq> f (xs ! i)"
    and b: "\<forall>q\<in>set (drop (Suc i) xs). f q \<noteq> f (xs ! i)"
    by (auto simp: image_iff)
  have "filter (\<lambda>q. f q \<noteq> f (xs ! i)) xs
      = filter (\<lambda>q. f q \<noteq> f (xs ! i)) (take i xs @ xs ! i # drop (Suc i) xs)"
    using xs by simp
  also have "\<dots> = take i xs @ drop (Suc i) xs"
    using a b by simp
  finally show ?thesis by (simp add: splice1_def)
qed

subsection \<open>The status of a stored record\<close>

text \<open>
  C1. The claim: in every registry reachable from the empty one, the status of
  every stored record is one of \<^verbatim>\<open>open\<close>, \<^verbatim>\<open>in-progress\<close>, \<^verbatim>\<open>resolved\<close>.
  The handler of \<^verbatim>\<open>PUT /problems/:id\<close> stores any truthy status it is given:
  after one creation and one update with the status \<^verbatim>\<open>bogus\<close>, the stored
  record has that status, which the handler of \<^verbatim>\<open>PATCH /problems/:id/status\<close>
  refuses for the same record.
\<close>

theorem put_stores_unrecognized_status:
  "map status (problems (serve init [PostProblems pothole 1000 1000, PutProblem ''1'' bogus 2000]))
     = [JStr ''bogus'']
   \<and> \<not> valid_status (JStr ''bogus'')
   \<and> fst (patch_status ''1'' bogus 2000 (serve init [PostProblems pothole 1000 1000]))
     = Inl InvalidInput"
  by code_simp

subsection \<open>Ids\<close>

lemma map_id_update:
  "i < length xs \<Longrightarrow> id' y = id' (xs ! i) \<Longrightarrow> map id' (xs[i := y]) = map id' xs"
  by (simp add: map_update list_update_same_conv)

lemma put_problem_ids:
  "ids (snd (put_problem seg body now s)) = ids s
   \<and> nextId (snd (put_problem seg body now s)) = nextId s"
  by (auto simp: ids_def put_problem_def Let_def map_id_update split: option.splits
      dest: findIndex_Some)

lemma post_upvote_ids:
  "ids (snd (post_upvote seg now s)) = ids s
   \<and> nextId (snd (post_upvote seg now s)) = nextId s"
  by (auto simp: ids_def post_upvote_def Let_def map_id_update split: option.splits
      dest: findIndex_Some)

lemma patch_status_ids:
  "ids (snd (patch_status seg body now s)) = ids s
   \<and> nextId (snd (patch_status seg body now s)) = nextId s"
  by (auto simp: ids_def patch_status_def Let_def map_id_update split: option.splits
      dest: findIndex_Some)

lemma distinct_splice1: "distinct xs \<Longrightarrow> distinct (splice1 i xs)"
  by (simp add: splice1_def set_take_disj_set_drop_if_distinct)

lemma in_set_splice1D: "x \<in> set (splice1 i xs) \<Longrightarrow> x \<in> set xs"
  by (auto simp: splice1_def dest: in_set_takeD in_set_dropD)

lemma map_splice1: "map f (splice1 i xs) = splice1 i (map f xs)"
  by (simp add: splice1_def take_map drop_map)

lemma delete_problem_ids:
  "(ids (snd (delete_problem seg s)) = ids s
      \<or> (\<exists>i. ids (snd (delete_problem seg s)) = splice1 i (ids s)))
   \<and> nextId (snd (delete_problem seg s)) = nextId s"
  by (auto simp: ids_def delete_problem_def Let_def map_splice1 split: option.splits)

lemma get_stats_ids:
  "mset (ids (snd (get_stats s))) = mset (ids s)
   \<and> nextId (snd (get_stats s)) = nextId s"
  by (simp add: ids_def get_stats_def Let_def mset_array_sort)

lemma post_problems_ids:
  "(snd (post_problems body t1 t2 s) = s \<and> (\<exists>e. fst (post_problems body t1 t2 s) = Inl e))
   \<or> (\<exists>p. fst (post_problems body t1 t2 s) = Inr p \<and> id' p = nextId s
        \<and> ids (snd (post_problems body t1 t2 s)) = ids s @ [nextId s]
        \<and> nextId (snd (post_problems body t1 t2 s)) = nextId s + 1)"
  by (simp add: ids_def post_problems_def Let_def)

text \<open>What one request does to the list of ids, the counter and the ids handed out.\<close>

lemma handle_ids:
  "(created r (fst (handle r s)) = []
      \<and> nextId (snd (handle r s)) = nextId s
      \<and> (mset (ids (snd (handle r s))) = mset (ids s)
           \<or> (\<exists>i. ids (snd (handle r s)) = splice1 i (ids s))))
   \<or> (created r (fst (handle r s)) = [nextId s]
      \<and> nextId (snd (handle r s)) = nextId s + 1
      \<and> ids (snd (handle r s)) = ids s @ [nextId s])"
proof (cases r)
  case (GetProblems q)
  then show ?thesis by simp
next
  case (GetProblem seg)
  then show ?thesis by (simp add: one_def)
next
  case (PostProblems body t1 t2)
  with post_problems_ids [of body t1 t2 s] show ?thesis
    by (auto simp: one_def)
next
  case (PutProblem seg body now)
  with put_problem_ids [of seg body now s] show ?thesis
    by (simp add: one_def)
next
  case (PostUpvote seg now)
  with post_upvote_ids [of seg now s] show ?thesis
    by (simp add: one_def)
next
  case (PatchStatus seg body now)
  with patch_status_ids [of seg body now s] show ?thesis
    by (simp add: one_def)
next
  case (DeleteProblem seg)
  with delete_problem_ids [of seg s] show ?thesis
    by (auto simp: one_def)
next
  case GetStats
  with get_stats_ids [of s] show ?thesis
    by simp
qed

lemma ids_below_handle:
  assumes "ids_below s"
  shows "ids_below (snd (handle r s))"
proof -
  from assms have d: "distinct (ids s)" and b: "\<forall>i\<in>set (ids s). i < nextId s"
    by (simp_all add: ids_below_def)
  from handle_ids [of r s] consider
      (same) "nextId (snd (handle r s)) = nextId s" "mset (ids (snd (handle r s))) = mset (ids s)"
    | (gone) i where "nextId (snd (handle r s)) = nextId s"
        "ids (snd (handle r s)) = splice1 i (ids s)"
    | (more) "nextId (snd (handle r s)) = nextId s + 1"
        "ids (snd (handle r s)) = ids s @ [nextId s]"
    by blast
  then show ?thesis
  proof cases
    case same
    from same(2) have "distinct (ids (snd (handle r s))) = distinct (ids s)"
      and "set (ids (snd (handle r s))) = set (ids s)"
      by (rule mset_eq_imp_distinct_iff, rule mset_eq_setD)
    with d b same(1) show ?thesis by (simp add: ids_below_def)
  next
    case gone
    with d b show ?thesis
      by (auto simp: ids_below_def distinct_splice1 dest: in_set_splice1D)
  next
    case more
    with d b show ?thesis by (auto simp: ids_below_def)
  qed
qed

lemma ids_below_serve: "ids_below s \<Longrightarrow> ids_below (serve s rs)"
  by (induction rs arbitrary: s) (simp_all add: ids_below_handle)

lemma ids_below_init: "ids_below init"
  by (simp add: ids_below_def ids_def init_def)

lemma nextId_handle: "nextId s \<le> nextId (snd (handle r s))"
  using handle_ids [of r s] by auto

lemma assigned_ids_from: "\<forall>i\<in>set (assigned_ids s rs). nextId s \<le> i"
proof (induction rs arbitrary: s)
  case Nil
  show ?case by simp
next
  case (Cons r rs)
  from Cons.IH [of "snd (handle r s)"] nextId_handle [of s r]
  have "\<forall>i\<in>set (assigned_ids (snd (handle r s)) rs). nextId s \<le> i"
    by auto
  with handle_ids [of r s] show ?case by auto
qed

lemma assigned_ids_increasing: "sorted_wrt (<) (assigned_ids s rs)"
proof (induction rs arbitrary: s)
  case Nil
  show ?case by simp
next
  case (Cons r rs)
  from handle_ids [of r s] show ?case
  proof
    assume "created r (fst (handle r s)) = []
      \<and> nextId (snd (handle r s)) = nextId s
      \<and> (mset (ids (snd (handle r s))) = mset (ids s)
           \<or> (\<exists>i. ids (snd (handle r s)) = splice1 i (ids s)))"
    with Cons.IH show ?thesis by simp
  next
    assume a: "created r (fst (handle r s)) = [nextId s]
      \<and> nextId (snd (handle r s)) = nextId s + 1
      \<and> ids (snd (handle r s)) = ids s @ [nextId s]"
    with assigned_ids_from [of "snd (handle r s)" rs]
    have "\<forall>i\<in>set (assigned_ids (snd (handle r s)) rs). nextId s < i"
      by auto
    with a Cons.IH [of "snd (handle r s)"] show ?thesis by simp
  qed
qed

lemma ids_serve_assigned: "set (ids (serve s rs)) \<subseteq> set (ids s) \<union> set (assigned_ids s rs)"
proof (induction rs arbitrary: s)
  case Nil
  show ?case by simp
next
  case (Cons r rs)
  have "set (ids (snd (handle r s))) \<subseteq> set (ids s) \<union> set (created r (fst (handle r s)))"
    using handle_ids [of r s]
    by (auto dest: mset_eq_setD in_set_splice1D)
  with Cons.IH [of "snd (handle r s)"] show ?case by auto
qed

text \<open>
  C2. Whatever requests are served from the empty registry on: the ids that the
  successful creations return, in the order they return them, are strictly
  increasing, so none is handed out twice, also not after a deletion; the ids of
  the records stored at the end are pairwise distinct; and each of them is one of
  the ids handed out. The sequence of requests is arbitrary, so this holds at
  every point of a run.
\<close>

theorem ids_increasing_distinct_never_reused:
  "sorted_wrt (<) (assigned_ids init rs)
   \<and> distinct (assigned_ids init rs)
   \<and> distinct (map id' (problems (serve init rs)))
   \<and> set (map id' (problems (serve init rs))) \<subseteq> set (assigned_ids init rs)"
proof -
  have "distinct (assigned_ids init rs)"
    using assigned_ids_increasing [of init rs] by (simp add: strict_sorted_iff)
  moreover have "distinct (map id' (problems (serve init rs)))"
    using ids_below_serve [OF ids_below_init, of rs] by (simp add: ids_below_def ids_def)
  moreover have "set (map id' (problems (serve init rs))) \<subseteq> set (assigned_ids init rs)"
    using ids_serve_assigned [of init rs] by (simp add: ids_def init_def)
  ultimately show ?thesis
    using assigned_ids_increasing [of init rs] by simp
qed

subsection \<open>Requests that fail\<close>

lemma absent_findIndex: "\<not> present seg s \<Longrightarrow> findIndex (id_is seg) (problems s) = None"
  by (simp add: present_def findIndex_None list_ex_iff)

lemma present_findIndex: "present seg s \<Longrightarrow> \<exists>i. findIndex (id_is seg) (problems s) = Some i"
  using findIndex_None [of "id_is seg" "problems s"]
  by (cases "findIndex (id_is seg) (problems s)") (auto simp: present_def list_ex_iff)

lemma error_leaves_registry: "fst (handle r s) = Inl e \<Longrightarrow> snd (handle r s) = s"
proof (cases r)
  case (GetProblems q)
  then show ?thesis by simp
next
  case (GetProblem seg)
  then show ?thesis by (simp add: one_def)
next
  case (PostProblems body t1 t2)
  assume "fst (handle r s) = Inl e"
  with PostProblems show ?thesis
    by (auto simp: one_def post_problems_def Let_def split: if_splits)
next
  case (PutProblem seg body now)
  assume "fst (handle r s) = Inl e"
  with PutProblem show ?thesis
    by (auto simp: one_def put_problem_def Let_def split: option.splits)
next
  case (PostUpvote seg now)
  assume "fst (handle r s) = Inl e"
  with PostUpvote show ?thesis
    by (auto simp: one_def post_upvote_def Let_def split: option.splits)
next
  case (PatchStatus seg body now)
  assume "fst (handle r s) = Inl e"
  with PatchStatus show ?thesis
    by (auto simp: one_def patch_status_def Let_def split: option.splits if_splits)
next
  case (DeleteProblem seg)
  assume "fst (handle r s) = Inl e"
  with DeleteProblem show ?thesis
    by (auto simp: one_def delete_problem_def Let_def split: option.splits)
next
  case GetStats
  assume "fst (handle r s) = Inl e"
  with GetStats show ?thesis by simp
qed

text \<open>
  C3. A request that fails changes nothing. When the path segment addresses no
  stored record, the handlers of \<^verbatim>\<open>GET\<close>, \<^verbatim>\<open>PUT\<close>, \<^verbatim>\<open>POST .../upvote\<close>,
  \<^verbatim>\<open>PATCH .../status\<close> and \<^verbatim>\<open>DELETE\<close> answer \<open>NotFound\<close> and leave the
  registry as it was (the id is looked up before the status is checked, so this
  is also the answer for an unrecognised status). When it addresses a stored
  record and the status is not one of the three, the status change answers
  \<open>InvalidInput\<close> and leaves the registry as it was. And whatever the request, an
  answer that is an error comes with the registry it was given: the same records
  in the same order and the same counter.
\<close>

theorem failing_requests_change_nothing:
  "(\<not> present seg s \<longrightarrow>
       get_problem seg s = Inl NotFound
     \<and> put_problem seg body now s = (Inl NotFound, s)
     \<and> post_upvote seg now s = (Inl NotFound, s)
     \<and> patch_status seg body now s = (Inl NotFound, s)
     \<and> delete_problem seg s = (Inl NotFound, s))
   \<and> (present seg s \<and> \<not> valid_status (lookup body ''status'') \<longrightarrow>
       patch_status seg body now s = (Inl InvalidInput, s))
   \<and> (fst (handle r s) = Inl e \<longrightarrow> snd (handle r s) = s)"
proof (intro conjI impI)
  assume a: "\<not> present seg s"
  then have n: "findIndex (id_is seg) (problems s) = None"
    by (rule absent_findIndex)
  then show "get_problem seg s = Inl NotFound"
    by (simp add: get_problem_def find_findIndex)
  from n show "put_problem seg body now s = (Inl NotFound, s)"
    by (simp add: put_problem_def)
  from n show "post_upvote seg now s = (Inl NotFound, s)"
    by (simp add: post_upvote_def)
  from n show "patch_status seg body now s = (Inl NotFound, s)"
    by (simp add: patch_status_def)
  from n show "delete_problem seg s = (Inl NotFound, s)"
    by (simp add: delete_problem_def)
next
  assume "present seg s \<and> \<not> valid_status (lookup body ''status'')"
  then obtain i where "findIndex (id_is seg) (problems s) = Some i"
    and "\<not> valid_status (lookup body ''status'')"
    using present_findIndex by blast
  then show "patch_status seg body now s = (Inl InvalidInput, s)"
    by (simp add: patch_status_def)
next
  assume "fst (handle r s) = Inl e"
  then show "snd (handle r s) = s"
    by (rule error_leaves_registry)
qed

theorem failing_requests_change_nothing_witness:
  "get_problem ''7'' one_pothole = Inl NotFound
   \<and> put_problem ''7'' pothole 2000 one_pothole = (Inl NotFound, one_pothole)
   \<and> post_upvote ''7'' 2000 one_pothole = (Inl NotFound, one_pothole)
   \<and> patch_status ''7'' pothole 2000 one_pothole = (Inl NotFound, one_pothole)
   \<and> delete_problem ''7'' one_pothole = (Inl NotFound, one_pothole)
   \<and> patch_status ''1'' bogus 2000 one_pothole = (Inl InvalidInput, one_pothole)
   \<and> snd (handle (PatchStatus ''1'' bogus 2000) one_pothole) = one_pothole"
proof -
  have a: "\<not> present ''7'' one_pothole"
    by code_simp
  have b: "present ''1'' one_pothole \<and> \<not> valid_status (lookup bogus ''status'')"
    by code_simp
  have c: "fst (handle (PatchStatus ''1'' bogus 2000) one_pothole) = Inl InvalidInput"
    by code_simp
  show ?thesis
    using a b c
      failing_requests_change_nothing [of "''7''" one_pothole pothole 2000 "GetStats" NotFound]
      failing_requests_change_nothing [of "''1''" one_pothole bogus 2000
        "PatchStatus ''1'' bogus 2000" InvalidInput]
    by (simp add: one_def)
qed

subsection \<open>Creation\<close>

text \<open>
  C4, as stated, fails in two places. The handler tests the four fields with
  \<^verbatim>\<open>!\<close>, so a title that is \<^verbatim>\<open>false\<close> (or \<^verbatim>\<open>0\<close>) is refused although
  it is neither missing nor empty. And it reads the clock once for \<^verbatim>\<open>createdAt\<close>
  and once more for \<^verbatim>\<open>updatedAt\<close>: when the clock ticks between the two
  readings, the two time stamps of the new record differ.
\<close>

theorem create_rejects_falsy_and_reads_clock_twice:
  "fst (post_problems false_title 1000 1000 init) = Inl InvalidInput
   \<and> \<not> missing_or_empty (lookup false_title ''title'')
   \<and> \<not> missing_or_empty (lookup false_title ''description'')
   \<and> \<not> missing_or_empty (lookup false_title ''category'')
   \<and> \<not> missing_or_empty (lookup false_title ''location'')
   \<and> map_sum (\<lambda>e. e) createdAt (fst (post_problems pothole 1000 1001 init)) = Inr 1000
   \<and> map_sum (\<lambda>e. e) updatedAt (fst (post_problems pothole 1000 1001 init)) = Inr 1001"
  by code_simp

text \<open>
  C4, amended. A creation answers \<open>InvalidInput\<close> exactly when one of title,
  description, category and location is falsy (missing, \<^verbatim>\<open>null\<close>, \<^verbatim>\<open>false\<close>,
  \<^verbatim>\<open>0\<close> or the empty string), and then the registry is unchanged. Otherwise it
  appends one record, which it returns: its id is the counter, its four fields
  are those of the body, its upvotes are 0, its status is \<^verbatim>\<open>open\<close>, and its
  \<^verbatim>\<open>createdAt\<close> and \<^verbatim>\<open>updatedAt\<close> are the two readings of the clock; the
  counter goes up by one.
\<close>

theorem post_problems_spec:
  "((\<exists>e. fst (post_problems body t1 t2 s) = Inl e) = (\<not> all_given body))
   \<and> (\<not> all_given body \<longrightarrow> post_problems body t1 t2 s = (Inl InvalidInput, s))
   \<and> (all_given body \<longrightarrow>
        (\<exists>p. post_problems body t1 t2 s
               = (Inr p, s\<lparr>problems := problems s @ [p], nextId := nextId s + 1\<rparr>)
           \<and> p = \<lparr>id' = nextId s,
                   title = lookup body ''title'', description = lookup body ''description'',
                   category = lookup body ''category'', location = lookup body ''location'',
                   upvotes = 0, status = JStr ''open'', createdAt = t1, updatedAt = t2\<rparr>))"
  by (auto simp: post_problems_def all_given_def Let_def)

text \<open>C4, at the body with the false title and at the example's body.\<close>

theorem post_problems_spec_witness:
  "\<not> all_given false_title
   \<and> post_problems false_title 1000 1000 init = (Inl InvalidInput, init)
   \<and> all_given pothole
   \<and> post_problems pothole 1000 1001 init
       = (Inr \<lparr>id' = 1, title = JStr ''Pothole'', description = JStr ''Large pothole'',
                category = JStr ''infrastructure'', location = JStr ''Main St'',
                upvotes = 0, status = JStr ''open'', createdAt = 1000, updatedAt = 1001\<rparr>,
          \<lparr>problems = [\<lparr>id' = 1, title = JStr ''Pothole'', description = JStr ''Large pothole'',
                category = JStr ''infrastructure'', location = JStr ''Main St'',
                upvotes = 0, status = JStr ''open'', createdAt = 1000, updatedAt = 1001\<rparr>],
            nextId = 2\<rparr>)"
proof -
  have a: "\<not> all_given false_title" by code_simp
  have b: "all_given pothole" by code_simp
  have l: "lookup pothole ''title'' = JStr ''Pothole''"
    "lookup pothole ''description'' = JStr ''Large pothole''"
    "lookup pothole ''category'' = JStr ''infrastructure''"
    "lookup pothole ''location'' = JStr ''Main St''"
    by code_simp+
  show ?thesis
    using a b post_problems_spec [of false_title 1000 1000 init]
      post_problems_spec [of pothole 1000 1001 init]
    by (simp add: l init_def)
qed

subsection \<open>Reading a record back\<close>

lemma get_problem_Inr:
  "get_problem seg s = Inr p \<Longrightarrow>
     \<exists>i. findIndex (id_is seg) (problems s) = Some i \<and> i < length (problems s)
        \<and> problems s ! i = p \<and> id_is seg p"
  by (cases "findIndex (id_is seg) (problems s)")
     (auto simp: get_problem_def find_findIndex dest: findIndex_Some)

lemma get_problem_update:
  "findIndex (id_is seg) (problems s) = Some i \<Longrightarrow> id_is seg q \<Longrightarrow>
     get_problem seg (s\<lparr>problems := (problems s)[i := q]\<rparr>) = Inr q"
  by (simp add: get_problem_def find_update_hit)

text \<open>Every registry served from the empty one has pairwise distinct ids.\<close>

lemma served_ids_distinct: "distinct (map id' (problems (serve init rs)))"
  using ids_below_serve [OF ids_below_init, of rs] by (simp add: ids_below_def ids_def)

subsection \<open>Upvotes\<close>

text \<open>
  C5, as stated, fails for the time stamp: the handler stores the reading of the
  clock, whatever it is. An upvote served in the millisecond in which the record
  was last written leaves \<^verbatim>\<open>updatedAt\<close> as it was, not strictly greater.
\<close>

theorem upvote_within_the_same_millisecond:
  "get_problem ''1'' one_pothole = Inr pothole_record
   \<and> updatedAt pothole_record = 1000
   \<and> get_problem ''1'' (snd (post_upvote ''1'' 1000 one_pothole))
     = Inr (pothole_record\<lparr>upvotes := 1, updatedAt := 1000\<rparr>)"
  by code_simp

text \<open>
  C5, amended. When the path segment addresses a stored record \<open>p\<close>, the upvote
  replaces it, at its place, by \<open>p\<close> with one more upvote and with \<^verbatim>\<open>updatedAt\<close>
  set to the reading of the clock; nothing else in the registry changes, the
  answer is the new record, and reading the record back gives the new record.
  Its \<^verbatim>\<open>updatedAt\<close> is strictly greater than before exactly when the clock has
  moved past the old value.
\<close>

theorem post_upvote_spec:
  assumes "get_problem seg s = Inr p"
  shows "\<exists>i q. i < length (problems s) \<and> problems s ! i = p
     \<and> q = p\<lparr>upvotes := upvotes p + 1, updatedAt := now\<rparr>
     \<and> post_upvote seg now s = (Inr q, s\<lparr>problems := (problems s)[i := q]\<rparr>)
     \<and> get_problem seg (snd (post_upvote seg now s)) = Inr q
     \<and> (updatedAt p < updatedAt q) = (updatedAt p < now)"
proof -
  from get_problem_Inr [OF assms] obtain i where
    i: "findIndex (id_is seg) (problems s) = Some i" "i < length (problems s)"
      "problems s ! i = p" "id_is seg p"
    by blast
  define q where "q = p\<lparr>upvotes := upvotes p + 1, updatedAt := now\<rparr>"
  have u: "post_upvote seg now s = (Inr q, s\<lparr>problems := (problems s)[i := q]\<rparr>)"
    using i by (simp add: post_upvote_def q_def Let_def)
  have "id_is seg q"
    using i(4) by (simp add: id_is_def q_def)
  with i(1) have "get_problem seg (snd (post_upvote seg now s)) = Inr q"
    by (simp add: u get_problem_update)
  moreover have "(updatedAt p < updatedAt q) = (updatedAt p < now)"
    by (simp add: q_def)
  ultimately show ?thesis
    using i(2,3) u q_def by blast
qed

text \<open>C5, at the example's record, upvoted a second after its creation.\<close>

theorem post_upvote_spec_witness:
  "get_problem ''1'' one_pothole = Inr pothole_record
   \<and> get_problem ''1'' (snd (post_upvote ''1'' 2000 one_pothole))
       = Inr (pothole_record\<lparr>upvotes := 1, updatedAt := 2000\<rparr>)"
proof -
  have h: "get_problem ''1'' one_pothole = Inr pothole_record"
    by code_simp
  have "upvotes pothole_record = 0"
    by (simp add: pothole_record_def)
  with post_upvote_spec [OF h, of 2000] h show ?thesis
    by auto
qed

subsection \<open>Updates without a usable field\<close>

text \<open>
  C9. When the path segment addresses a stored record \<open>p\<close> and title,
  description, category, location and status of the body are all falsy (missing,
  or for instance empty strings), the update succeeds: it replaces \<open>p\<close>, at its
  place, by \<open>p\<close> with \<^verbatim>\<open>updatedAt\<close> set to the reading of the clock, returns
  that record, and changes nothing else in the registry.
\<close>

theorem put_problem_all_falsy:
  assumes "get_problem seg s = Inr p"
    and "\<not> truthy (lookup body ''title'')"
    and "\<not> truthy (lookup body ''description'')"
    and "\<not> truthy (lookup body ''category'')"
    and "\<not> truthy (lookup body ''location'')"
    and "\<not> truthy (lookup body ''status'')"
  shows "\<exists>i. i < length (problems s) \<and> problems s ! i = p
     \<and> put_problem seg body now s
         = (Inr (p\<lparr>updatedAt := now\<rparr>),
            s\<lparr>problems := (problems s)[i := p\<lparr>updatedAt := now\<rparr>]\<rparr>)"
proof -
  from get_problem_Inr [OF assms(1)] obtain i where
    i: "findIndex (id_is seg) (problems s) = Some i" "i < length (problems s)"
      "problems s ! i = p"
    by blast
  have "put_problem seg body now s
      = (Inr (p\<lparr>updatedAt := now\<rparr>), s\<lparr>problems := (problems s)[i := p\<lparr>updatedAt := now\<rparr>]\<rparr>)"
    using i assms(2-6) by (simp add: put_problem_def Let_def)
  with i(2,3) show ?thesis by blast
qed

text \<open>C9, at the example's record and a body of five empty strings.\<close>

theorem put_problem_all_falsy_witness:
  "get_problem ''1'' one_pothole = Inr pothole_record
   \<and> put_problem ''1'' empty_strings 2000 one_pothole
       = (Inr (pothole_record\<lparr>updatedAt := 2000\<rparr>),
          one_pothole\<lparr>problems := [pothole_record\<lparr>updatedAt := 2000\<rparr>]\<rparr>)"
proof -
  have h: "get_problem ''1'' one_pothole = Inr pothole_record"
    by code_simp
  have f: "\<not> truthy (lookup empty_strings ''title'')"
    "\<not> truthy (lookup empty_strings ''description'')"
    "\<not> truthy (lookup empty_strings ''category'')"
    "\<not> truthy (lookup empty_strings ''location'')"
    "\<not> truthy (lookup empty_strings ''status'')"
    by code_simp+
  have l: "problems one_pothole = [pothole_record]"
    by code_simp
  from put_problem_all_falsy [OF h f, of 2000] h l show ?thesis
    by auto
qed

subsection \<open>Deletion\<close>

lemma find_filter_other:
  "find (id_is seg) (filter (\<lambda>q. id' q \<noteq> n) xs) = None" if "parseInt seg = Some n"
  using that by (auto simp: find_None_iff id_is_def)

text \<open>
  C8. In a registry whose ids are pairwise distinct (every registry served from
  the empty one is, by \<open>served_ids_distinct\<close>), when the path segment addresses
  a stored record \<open>p\<close>, the deletion returns \<open>p\<close> and leaves the records whose
  id is not that of \<open>p\<close>, in their order and unchanged; there is one record
  less, and reading the id back answers \<open>NotFound\<close>.
\<close>

theorem delete_problem_spec:
  assumes "distinct (map id' (problems s))" and "get_problem seg s = Inr p"
  shows "p \<in> set (problems s)
     \<and> delete_problem seg s
         = (Inr p, s\<lparr>problems := filter (\<lambda>q. id' q \<noteq> id' p) (problems s)\<rparr>)
     \<and> Suc (length (problems (snd (delete_problem seg s)))) = length (problems s)
     \<and> get_problem seg (snd (delete_problem seg s)) = Inl NotFound"
proof -
  from get_problem_Inr [OF assms(2)] obtain i where
    i: "findIndex (id_is seg) (problems s) = Some i" "i < length (problems s)"
      "problems s ! i = p" "id_is seg p"
    by blast
  have f: "splice1 i (problems s) = filter (\<lambda>q. id' q \<noteq> id' p) (problems s)"
    using splice1_filter [OF assms(1) i(2)] i(3) by simp
  have d: "delete_problem seg s
      = (Inr p, s\<lparr>problems := filter (\<lambda>q. id' q \<noteq> id' p) (problems s)\<rparr>)"
    using i f by (simp add: delete_problem_def Let_def)
  have "Suc (length (splice1 i (problems s))) = length (problems s)"
    using i(2) by (simp add: splice1_def)
  then have n: "Suc (length (problems (snd (delete_problem seg s)))) = length (problems s)"
    by (simp add: d f)
  have g: "get_problem seg (snd (delete_problem seg s)) = Inl NotFound"
    using i(4) by (simp add: d get_problem_def id_is_def find_filter_other)
  from i(2,3) have "p \<in> set (problems s)"
    by auto
  with d n g show ?thesis by simp
qed

text \<open>C8, at the registry that holds the example's record only.\<close>

theorem delete_problem_spec_witness:
  "get_problem ''1'' one_pothole = Inr pothole_record
   \<and> delete_problem ''1'' one_pothole = (Inr pothole_record, one_pothole\<lparr>problems := []\<rparr>)
   \<and> get_problem ''1'' (snd (delete_problem ''1'' one_pothole)) = Inl NotFound"
proof -
  have h: "get_problem ''1'' one_pothole = Inr pothole_record"
    by code_simp
  have l: "problems one_pothole = [pothole_record]"
    by code_simp
  have d: "distinct (map id' (problems one_pothole))"
    unfolding one_pothole_def by (rule served_ids_distinct)
  note r = delete_problem_spec [OF d h]
  from r l have a: "delete_problem ''1'' one_pothole
      = (Inr pothole_record, one_pothole\<lparr>problems := []\<rparr>)"
    by simp
  from r have b: "get_problem ''1'' (snd (delete_problem ''1'' one_pothole)) = Inl NotFound"
    by blast
  from h a b show ?thesis by blast
qed

subsection \<open>Statistics\<close>

lemma count_category_le:
  "count_category ''infrastructure'' ps + count_category ''safety'' ps
     + count_category ''environment'' ps + count_category ''education'' ps
     + count_category ''health'' ps \<le> length ps"
  by (induction ps) (auto simp: count_category_def)

text \<open>
  The sort keeps records with the same upvotes in the order they had, which is
  what decides the five of \<^verbatim>\<open>topUpvoted\<close> among equals.
\<close>

lemma filter_place_same_upvotes:
  "filter (\<lambda>p. upvotes p = k) (place by_upvotes x xs)
     = filter (\<lambda>p. upvotes p = k) (x # xs)"
  by (induction xs) (auto simp: by_upvotes_def)

lemma array_sort_stable:
  "filter (\<lambda>p. upvotes p = k) (array_sort by_upvotes xs) = filter (\<lambda>p. upvotes p = k) xs"
proof (induction xs)
  case Nil
  show ?case by (simp add: array_sort_def)
next
  case (Cons x xs)
  have "array_sort by_upvotes (x # xs) = place by_upvotes x (array_sort by_upvotes xs)"
    by (simp add: array_sort_def)
  with Cons.IH show ?case
    by (simp add: filter_place_same_upvotes)
qed

lemma array_sort_descending:
  "sorted_wrt (\<lambda>a b. upvotes b \<le> upvotes a) (array_sort by_upvotes xs)"
  using array_sort_ordered [of xs] by (simp add: by_upvotes_def)

text \<open>
  C6. For every registry the statistics are returned (the handler has no failing
  branch): the total is the number of records; \<^verbatim>\<open>open\<close>, \<^verbatim>\<open>inProgress\<close> and
  \<^verbatim>\<open>resolved\<close> count the records with that status; each of the five categories
  counts the records whose category is exactly that string, so the five counts
  add up to at most the total; and \<^verbatim>\<open>topUpvoted\<close> is the first five of the
  records put in non-increasing order of upvotes, an order that has the same
  records as the registry.
\<close>

theorem get_stats_spec:
  "(let st = fst (get_stats s); c = categories st; ps = problems s in
      total' st = length ps
    \<and> open' st = length (filter (\<lambda>p. status p = JStr ''open'') ps)
    \<and> inProgress st = length (filter (\<lambda>p. status p = JStr ''in-progress'') ps)
    \<and> resolved st = length (filter (\<lambda>p. status p = JStr ''resolved'') ps)
    \<and> infrastructure c = length (filter (\<lambda>p. category p = JStr ''infrastructure'') ps)
    \<and> safety c = length (filter (\<lambda>p. category p = JStr ''safety'') ps)
    \<and> environment c = length (filter (\<lambda>p. category p = JStr ''environment'') ps)
    \<and> education c = length (filter (\<lambda>p. category p = JStr ''education'') ps)
    \<and> health c = length (filter (\<lambda>p. category p = JStr ''health'') ps)
    \<and> infrastructure c + safety c + environment c + education c + health c \<le> total' st
    \<and> topUpvoted st = take 5 (array_sort by_upvotes ps)
    \<and> mset (array_sort by_upvotes ps) = mset ps
    \<and> sorted_wrt (\<lambda>a b. upvotes b \<le> upvotes a) (array_sort by_upvotes ps))"
proof -
  have "infrastructure (categories (fst (get_stats s))) + safety (categories (fst (get_stats s)))
      + environment (categories (fst (get_stats s))) + education (categories (fst (get_stats s)))
      + health (categories (fst (get_stats s))) \<le> total' (fst (get_stats s))"
    using count_category_le [of "problems s"] by (simp add: get_stats_def Let_def)
  moreover have "topUpvoted (fst (get_stats s)) = take 5 (array_sort by_upvotes (problems s))"
    by (simp add: get_stats_def Let_def)
  moreover have "total' (fst (get_stats s)) = length (problems s)"
    by (simp add: get_stats_def Let_def)
  moreover have "open' (fst (get_stats s)) = length (filter (\<lambda>p. status p = JStr ''open'') (problems s))"
    "inProgress (fst (get_stats s)) = length (filter (\<lambda>p. status p = JStr ''in-progress'') (problems s))"
    "resolved (fst (get_stats s)) = length (filter (\<lambda>p. status p = JStr ''resolved'') (problems s))"
    by (simp_all add: get_stats_def Let_def count_status_def)
  moreover have
    "infrastructure (categories (fst (get_stats s)))
       = length (filter (\<lambda>p. category p = JStr ''infrastructure'') (problems s))"
    "safety (categories (fst (get_stats s)))
       = length (filter (\<lambda>p. category p = JStr ''safety'') (problems s))"
    "environment (categories (fst (get_stats s)))
       = length (filter (\<lambda>p. category p = JStr ''environment'') (problems s))"
    "education (categories (fst (get_stats s)))
       = length (filter (\<lambda>p. category p = JStr ''education'') (problems s))"
    "health (categories (fst (get_stats s)))
       = length (filter (\<lambda>p. category p = JStr ''health'') (problems s))"
    by (simp_all add: get_stats_def Let_def count_category_def)
  ultimately show ?thesis
    unfolding Let_def
    using mset_array_sort [of by_upvotes "problems s"] array_sort_descending [of "problems s"]
    by blast
qed

subsection \<open>Listing\<close>

text \<open>
  C7, as stated, fails for a filter that is supplied and empty: the handler
  tests the filter with \<^verbatim>\<open>if (status)\<close>, so \<^verbatim>\<open>GET /problems?status=\<close> lists
  the record of the example, whose status is \<^verbatim>\<open>open\<close> and not the empty string.
\<close>

theorem empty_status_filter_lists_everything:
  "lookup empty_status ''status'' = JStr []
   \<and> get_problems empty_status one_pothole = [pothole_record]
   \<and> status pothole_record = JStr ''open''"
  by code_simp

text \<open>
  C7, amended. For every registry and every query, the list is made of the
  records whose status and category match the filters, in storage order, where a
  missing or empty (falsy) filter matches every record and any other filter
  matches the fields strictly equal to it. So with no usable filter the list is
  the whole collection, with a non-empty string as the only filter it is the
  records whose status is that string, and it is empty when nothing matches.
  The handler has no failing branch.
\<close>

theorem get_problems_spec:
  "get_problems query s
     = filter (\<lambda>p. matches (lookup query ''status'') (status p)
                 \<and> matches (lookup query ''category'') (category p)) (problems s)
   \<and> (\<not> truthy (lookup query ''status'') \<and> \<not> truthy (lookup query ''category'') \<longrightarrow>
        get_problems query s = problems s)
   \<and> (lookup query ''status'' = JStr a \<and> a \<noteq> [] \<and> \<not> truthy (lookup query ''category'') \<longrightarrow>
        get_problems query s = filter (\<lambda>p. status p = JStr a) (problems s))"
  by (simp add: get_problems_def matches_def Let_def)

text \<open>C7, at the two reports: the resolved ones, and all of them.\<close>

theorem get_problems_spec_witness:
  "map id' (get_problems resolved_only two_reports) = [2]
   \<and> map id' (get_problems [] two_reports) = [1, 2]"
proof -
  have q: "lookup resolved_only ''status'' = JStr ''resolved''"
    "\<not> truthy (lookup resolved_only ''category'')"
    "\<not> truthy (lookup [] ''status'')" "\<not> truthy (lookup [] ''category'')"
    by code_simp+
  have r: "map id' (filter (\<lambda>p. status p = JStr ''resolved'') (problems two_reports)) = [2]"
    by code_simp
  have a: "map id' (problems two_reports) = [1, 2]"
    by code_simp
  from q get_problems_spec [of resolved_only two_reports "''resolved''"]
  have x: "get_problems resolved_only two_reports
      = filter (\<lambda>p. status p = JStr ''resolved'') (problems two_reports)"
    by blast
  from q get_problems_spec [of "[]" two_reports "''resolved''"]
  have y: "get_problems [] two_reports = problems two_reports"
    by blast
  from r a show ?thesis
    unfolding x y by blast
qed

subsection \<open>The id in the path\<close>

lemma radixDigit_10: "radixDigit 10 c = isDecimalDigit c"
  by (auto simp: radixDigit_def digitValue_def isDecimalDigit_def Let_def)

lemma digit_not_space: "isDecimalDigit c \<Longrightarrow> \<not> isWhiteSpace c"
  by (auto simp: isDecimalDigit_def isWhiteSpace_def)

lemma digit_not_sign: "isDecimalDigit c \<Longrightarrow> c \<noteq> CHR ''+'' \<and> c \<noteq> CHR ''-''"
  by (auto simp: isDecimalDigit_def)

lemma mathInt_decimal_from:
  "\<forall>c\<in>set ds. isDecimalDigit c \<Longrightarrow>
     foldl (\<lambda>a c. a * 10 + (case digitValue c of None \<Rightarrow> 0 | Some d \<Rightarrow> d)) a ds
       = foldl (\<lambda>a c. a * 10 + (of_char c - 48)) a ds"
  by (induction ds arbitrary: a) (auto simp: digitValue_def isDecimalDigit_def Let_def)

lemma mathInt_decimal: "mathInt 10 (leading_digits seg) = decimal_value (leading_digits seg)"
  unfolding mathInt_def decimal_value_def leading_digits_def
  by (rule mathInt_decimal_from) (auto dest: set_takeWhileD)

lemma parseInt_leading_digits:
  assumes "leading_digits seg \<noteq> []" and "\<not> hex_prefixed seg"
  shows "parseInt seg = Some (int (decimal_value (leading_digits seg)))"
proof -
  from assms(1) obtain c rest where seg: "seg = c # rest" and c: "isDecimalDigit c"
    by (cases seg) (auto simp: leading_digits_def split: if_splits)
  have w: "dropWhile isWhiteSpace seg = seg"
    using seg c by (simp add: digit_not_space)
  have g: "seg \<noteq> []" "hd seg \<noteq> CHR ''+''" "hd seg \<noteq> CHR ''-''"
    using seg digit_not_sign [OF c] by simp_all
  have z: "takeWhile (radixDigit 10) seg = leading_digits seg"
    by (simp add: leading_digits_def radixDigit_10 [abs_def])
  have h: "take 2 seg \<noteq> ''0x''" "take 2 seg \<noteq> ''0X''"
    using assms(2) by (simp_all add: hex_prefixed_def)
  have "parseInt seg = Some (int (mathInt 10 (leading_digits seg)))"
    unfolding parseInt_def w Let_def
    using assms(1) by (simp add: g h z)
  then show ?thesis by (simp add: mathInt_decimal)
qed

lemma parseInt_NaN_absent: "parseInt seg = None \<Longrightarrow> \<not> present seg s"
  by (simp add: present_def list_ex_iff id_is_def)

text \<open>
  C10, as stated, fails for a segment that begins with \<^verbatim>\<open>0x\<close>: its leading
  decimal digit is \<^verbatim>\<open>0\<close>, but \<^verbatim>\<open>parseInt\<close> reads it in base sixteen, so
  \<^verbatim>\<open>GET /problems/0x1\<close> answers with the record whose id is 1.
\<close>

theorem hexadecimal_segment_addresses_another_id:
  "leading_digits ''0x1'' = ''0''
   \<and> decimal_value ''0'' = 0
   \<and> parseInt ''0x1'' = Some 1
   \<and> get_problem ''0x1'' one_pothole = Inr pothole_record
   \<and> id' pothole_record = 1"
  by code_simp

text \<open>
  C10, amended. A path segment that begins with decimal digits, and not with
  \<^verbatim>\<open>0x\<close> or \<^verbatim>\<open>0X\<close>, addresses the record whose id is the decimal value \<open>n\<close>
  of those digits, whatever follows them. The test that the five handlers apply
  to a record holds exactly for the records with id \<open>n\<close>. When no record has
  id \<open>n\<close>, each of the five answers \<open>NotFound\<close> and leaves the registry. When
  the first record with id \<open>n\<close> is at index \<open>i\<close>, the reading returns it; the
  upvote, the status change and the update replace it at \<open>i\<close> by the record
  they return (one more upvote; the new status, or \<open>InvalidInput\<close> for an
  unrecognised one; the truthy fields of the body), each with \<^verbatim>\<open>updatedAt\<close> set
  to the reading of the clock; and the deletion returns it and removes index
  \<open>i\<close>. And a segment for which \<^verbatim>\<open>parseInt\<close> gives \<^verbatim>\<open>NaN\<close> gets \<open>NotFound\<close>
  from each of the five handlers, the registry unchanged.
\<close>

theorem path_segment_spec:
  "(leading_digits seg \<noteq> [] \<and> \<not> hex_prefixed seg \<longrightarrow>
     (let n = int (decimal_value (leading_digits seg)); xs = problems s in
        id_is seg p = (id' p = n)
      \<and> (findIndex (\<lambda>q. id' q = n) xs = None \<longrightarrow>
            get_problem seg s = Inl NotFound
          \<and> put_problem seg body now s = (Inl NotFound, s)
          \<and> post_upvote seg now s = (Inl NotFound, s)
          \<and> patch_status seg body now s = (Inl NotFound, s)
          \<and> delete_problem seg s = (Inl NotFound, s))
      \<and> (findIndex (\<lambda>q. id' q = n) xs = Some i \<longrightarrow>
            id' (xs ! i) = n
          \<and> get_problem seg s = Inr (xs ! i)
          \<and> put_problem seg body now s
              = (Inr ((xs ! i)
                   \<lparr>title := (if truthy (lookup body ''title'')
                              then lookup body ''title'' else title (xs ! i)),
                    description := (if truthy (lookup body ''description'')
                              then lookup body ''description'' else description (xs ! i)),
                    category := (if truthy (lookup body ''category'')
                              then lookup body ''category'' else category (xs ! i)),
                    location := (if truthy (lookup body ''location'')
                              then lookup body ''location'' else location (xs ! i)),
                    status := (if truthy (lookup body ''status'')
                              then lookup body ''status'' else status (xs ! i)),
                    updatedAt := now\<rparr>),
                 s\<lparr>problems := xs[i := (xs ! i)
                   \<lparr>title := (if truthy (lookup body ''title'')
                              then lookup body ''title'' else title (xs ! i)),
                    description := (if truthy (lookup body ''description'')
                              then lookup body ''description'' else description (xs ! i)),
                    category := (if truthy (lookup body ''category'')
                              then lookup body ''category'' else category (xs ! i)),
                    location := (if truthy (lookup body ''location'')
                              then lookup body ''location'' else location (xs ! i)),
                    status := (if truthy (lookup body ''status'')
                              then lookup body ''status'' else status (xs ! i)),
                    updatedAt := now\<rparr>]\<rparr>)
          \<and> post_upvote seg now s
              = (Inr ((xs ! i)\<lparr>upvotes := upvotes (xs ! i) + 1, updatedAt := now\<rparr>),
                 s\<lparr>problems := xs[i := (xs ! i)\<lparr>upvotes := upvotes (xs ! i) + 1,
                                                 updatedAt := now\<rparr>]\<rparr>)
          \<and> patch_status seg body now s
              = (if valid_status (lookup body ''status'')
                 then (Inr ((xs ! i)\<lparr>status := lookup body ''status'', updatedAt := now\<rparr>),
                       s\<lparr>problems := xs[i := (xs ! i)\<lparr>status := lookup body ''status'',
                                                       updatedAt := now\<rparr>]\<rparr>)
                 else (Inl InvalidInput, s))
          \<and> delete_problem seg s = (Inr (xs ! i), s\<lparr>problems := splice1 i xs\<rparr>))))
   \<and> (parseInt seg = None \<longrightarrow>
       get_problem seg s = Inl NotFound
     \<and> put_problem seg body now s = (Inl NotFound, s)
     \<and> post_upvote seg now s = (Inl NotFound, s)
     \<and> patch_status seg body now s = (Inl NotFound, s)
     \<and> delete_problem seg s = (Inl NotFound, s))"
proof (intro conjI impI)
  assume a: "leading_digits seg \<noteq> [] \<and> \<not> hex_prefixed seg"
  define n where "n = int (decimal_value (leading_digits seg))"
  define xs where "xs = problems s"
  from a have v: "parseInt seg = Some n"
    by (simp add: parseInt_leading_digits n_def)
  then have t: "id_is seg p = (id' p = n)"
    by (auto simp: id_is_def)
  from v have f: "id_is seg = (\<lambda>q. id' q = n)"
    by (auto simp: id_is_def fun_eq_iff)
  have none: "get_problem seg s = Inl NotFound
      \<and> put_problem seg body now s = (Inl NotFound, s)
      \<and> post_upvote seg now s = (Inl NotFound, s)
      \<and> patch_status seg body now s = (Inl NotFound, s)
      \<and> delete_problem seg s = (Inl NotFound, s)"
    if "findIndex (\<lambda>q. id' q = n) xs = None"
    using that unfolding xs_def
    by (simp add: f get_problem_def find_findIndex put_problem_def post_upvote_def
        patch_status_def delete_problem_def)
  have some: "id' (xs ! i) = n
      \<and> get_problem seg s = Inr (xs ! i)
      \<and> put_problem seg body now s
          = (Inr ((xs ! i)
               \<lparr>title := (if truthy (lookup body ''title'')
                          then lookup body ''title'' else title (xs ! i)),
                description := (if truthy (lookup body ''description'')
                          then lookup body ''description'' else description (xs ! i)),
                category := (if truthy (lookup body ''category'')
                          then lookup body ''category'' else category (xs ! i)),
                location := (if truthy (lookup body ''location'')
                          then lookup body ''location'' else location (xs ! i)),
                status := (if truthy (lookup body ''status'')
                          then lookup body ''status'' else status (xs ! i)),
                updatedAt := now\<rparr>),
             s\<lparr>problems := xs[i := (xs ! i)
               \<lparr>title := (if truthy (lookup body ''title'')
                          then lookup body ''title'' else title (xs ! i)),
                description := (if truthy (lookup body ''description'')
                          then lookup body ''description'' else description (xs ! i)),
                category := (if truthy (lookup body ''category'')
                          then lookup body ''category'' else category (xs ! i)),
                location := (if truthy (lookup body ''location'')
                          then lookup body ''location'' else location (xs ! i)),
                status := (if truthy (lookup body ''status'')
                          then lookup body ''status'' else status (xs ! i)),
                updatedAt := now\<rparr>]\<rparr>)
      \<and> post_upvote seg now s
          = (Inr ((xs ! i)\<lparr>upvotes := upvotes (xs ! i) + 1, updatedAt := now\<rparr>),
             s\<lparr>problems := xs[i := (xs ! i)\<lparr>upvotes := upvotes (xs ! i) + 1,
                                             updatedAt := now\<rparr>]\<rparr>)
      \<and> patch_status seg body now s
          = (if valid_status (lookup body ''status'')
             then (Inr ((xs ! i)\<lparr>status := lookup body ''status'', updatedAt := now\<rparr>),
                   s\<lparr>problems := xs[i := (xs ! i)\<lparr>status := lookup body ''status'',
                                                   updatedAt := now\<rparr>]\<rparr>)
             else (Inl InvalidInput, s))
      \<and> delete_problem seg s = (Inr (xs ! i), s\<lparr>problems := splice1 i xs\<rparr>)"
    if h: "findIndex (\<lambda>q. id' q = n) xs = Some i"
  proof -
    from h have k: "findIndex (id_is seg) (problems s) = Some i"
      by (simp add: f xs_def)
    from findIndex_Some [OF h] have "id' (xs ! i) = n"
      by simp
    moreover from k have "get_problem seg s = Inr (xs ! i)"
      by (simp add: get_problem_def find_findIndex xs_def)
    moreover from k have "delete_problem seg s = (Inr (xs ! i), s\<lparr>problems := splice1 i xs\<rparr>)"
      by (simp add: delete_problem_def Let_def xs_def)
    moreover from k have "post_upvote seg now s
        = (Inr ((xs ! i)\<lparr>upvotes := upvotes (xs ! i) + 1, updatedAt := now\<rparr>),
           s\<lparr>problems := xs[i := (xs ! i)\<lparr>upvotes := upvotes (xs ! i) + 1,
                                           updatedAt := now\<rparr>]\<rparr>)"
      by (simp add: post_upvote_def Let_def xs_def)
    moreover from k have "patch_status seg body now s
        = (if valid_status (lookup body ''status'')
           then (Inr ((xs ! i)\<lparr>status := lookup body ''status'', updatedAt := now\<rparr>),
                 s\<lparr>problems := xs[i := (xs ! i)\<lparr>status := lookup body ''status'',
                                                 updatedAt := now\<rparr>]\<rparr>)
           else (Inl InvalidInput, s))"
      by (simp add: patch_status_def Let_def xs_def)
    moreover from k have "put_problem seg body now s
        = (Inr ((xs ! i)
             \<lparr>title := (if truthy (lookup body ''title'')
                        then lookup body ''title'' else title (xs ! i)),
              description := (if truthy (lookup body ''description'')
                        then lookup body ''description'' else description (xs ! i)),
              category := (if truthy (lookup body ''category'')
                        then lookup body ''category'' else category (xs ! i)),
              location := (if truthy (lookup body ''location'')
                        then lookup body ''location'' else location (xs ! i)),
              status := (if truthy (lookup body ''status'')
                        then lookup body ''status'' else status (xs ! i)),
              updatedAt := now\<rparr>),
           s\<lparr>problems := xs[i := (xs ! i)
             \<lparr>title := (if truthy (lookup body ''title'')
                        then lookup body ''title'' else title (xs ! i)),
              description := (if truthy (lookup body ''description'')
                        then lookup body ''description'' else description (xs ! i)),
              category := (if truthy (lookup body ''category'')
                        then lookup body ''category'' else category (xs ! i)),
              location := (if truthy (lookup body ''location'')
                        then lookup body ''location'' else location (xs ! i)),
              status := (if truthy (lookup body ''status'')
                        then lookup body ''status'' else status (xs ! i)),
              updatedAt := now\<rparr>]\<rparr>)"
      by (simp add: put_problem_def Let_def xs_def)
    ultimately show ?thesis by blast
  qed
  from t none some
  show "let n = int (decimal_value (leading_digits seg)); xs = problems s in
        id_is seg p = (id' p = n)
      \<and> (findIndex (\<lambda>q. id' q = n) xs = None \<longrightarrow>
            get_problem seg s = Inl NotFound
          \<and> put_problem seg body now s = (Inl NotFound, s)
          \<and> post_upvote seg now s = (Inl NotFound, s)
          \<and> patch_status seg body now s = (Inl NotFound, s)
          \<and> delete_problem seg s = (Inl NotFound, s))
      \<and> (findIndex (\<lambda>q. id' q = n) xs = Some i \<longrightarrow>
            id' (xs ! i) = n
          \<and> get_problem seg s = Inr (xs ! i)
          \<and> put_problem seg body now s
              = (Inr ((xs ! i)
                   \<lparr>title := (if truthy (lookup body ''title'')
                              then lookup body ''title'' else title (xs ! i)),
                    description := (if truthy (lookup body ''description'')
                              then lookup body ''description'' else description (xs ! i)),
                    category := (if truthy (lookup body ''category'')
                              then lookup body ''category'' else category (xs ! i)),
                    location := (if truthy (lookup body ''location'')
                              then lookup body ''location'' else location (xs ! i)),
                    status := (if truthy (lookup body ''status'')
                              then lookup body ''status'' else status (xs ! i)),
                    updatedAt := now\<rparr>),
                 s\<lparr>problems := xs[i := (xs ! i)
                   \<lparr>title := (if truthy (lookup body ''title'')
                              then lookup body ''title'' else title (xs ! i)),
                    description := (if truthy (lookup body ''description'')
                              then lookup body ''description'' else description (xs ! i)),
                    category := (if truthy (lookup body ''category'')
                              then lookup body ''category'' else category (xs ! i)),
                    location := (if truthy (lookup body ''location'')
                              then lookup body ''location'' else location (xs ! i)),
                    status := (if truthy (lookup body ''status'')
                              then lookup body ''status'' else status (xs ! i)),
                    updatedAt := now\<rparr>]\<rparr>)
          \<and> post_upvote seg now s
              = (Inr ((xs ! i)\<lparr>upvotes := upvotes (xs ! i) + 1, updatedAt := now\<rparr>),
                 s\<lparr>problems := xs[i := (xs ! i)\<lparr>upvotes := upvotes (xs ! i) + 1,
                                                 updatedAt := now\<rparr>]\<rparr>)
          \<and> patch_status seg body now s
              = (if valid_status (lookup body ''status'')
                 then (Inr ((xs ! i)\<lparr>status := lookup body ''status'', updatedAt := now\<rparr>),
                       s\<lparr>problems := xs[i := (xs ! i)\<lparr>status := lookup body ''status'',
                                                       updatedAt := now\<rparr>]\<rparr>)
                 else (Inl InvalidInput, s))
          \<and> delete_problem seg s = (Inr (xs ! i), s\<lparr>problems := splice1 i xs\<rparr>))"
    unfolding Let_def n_def xs_def by blast
next
  assume "parseInt seg = None"
  then have n: "findIndex (id_is seg) (problems s) = None"
    by (simp add: parseInt_NaN_absent absent_findIndex)
  then show "get_problem seg s = Inl NotFound"
    by (simp add: get_problem_def find_findIndex)
  from n show "put_problem seg body now s = (Inl NotFound, s)"
    by (simp add: put_problem_def)
  from n show "post_upvote seg now s = (Inl NotFound, s)"
    by (simp add: post_upvote_def)
  from n show "patch_status seg body now s = (Inl NotFound, s)"
    by (simp add: patch_status_def)
  from n show "delete_problem seg s = (Inl NotFound, s)"
    by (simp add: delete_problem_def)
qed

text \<open>
  C10, at the two reports: \<^verbatim>\<open>2abc\<close> addresses the second of them in each of the
  five handlers and leaves the first as it is, \<^verbatim>\<open>7abc\<close> addresses none, and
  \<^verbatim>\<open>abc\<close> is not a number.
\<close>

theorem path_segment_spec_witness:
  "id_is ''2abc'' (pothole_record\<lparr>id' := 2\<rparr>)
   \<and> get_problem ''2abc'' two_reports = Inr (problems two_reports ! 1)
   \<and> id' (problems two_reports ! 1) = 2
   \<and> map id' (problems (snd (delete_problem ''2abc'' two_reports))) = [1]
   \<and> map upvotes (problems (snd (post_upvote ''2abc'' 3000 two_reports))) = [0, 1]
   \<and> map updatedAt (problems (snd (post_upvote ''2abc'' 3000 two_reports))) = [1000, 3000]
   \<and> map updatedAt (problems (snd (put_problem ''2abc'' empty_strings 3000 two_reports)))
       = [1000, 3000]
   \<and> patch_status ''2abc'' bogus 3000 two_reports = (Inl InvalidInput, two_reports)
   \<and> post_upvote ''7abc'' 3000 two_reports = (Inl NotFound, two_reports)
   \<and> get_problem ''abc'' two_reports = Inl NotFound
   \<and> delete_problem ''abc'' two_reports = (Inl NotFound, two_reports)"
proof -
  have a: "leading_digits ''2abc'' \<noteq> [] \<and> \<not> hex_prefixed ''2abc''"
    by code_simp
  have an: "int (decimal_value (leading_digits ''2abc'')) = 2"
    by code_simp
  have b: "leading_digits ''7abc'' \<noteq> [] \<and> \<not> hex_prefixed ''7abc''"
    by code_simp
  have bn: "int (decimal_value (leading_digits ''7abc'')) = 7"
    by code_simp
  have c: "parseInt ''abc'' = None"
    by code_simp
  have i2: "findIndex (\<lambda>q. id' q = 2) (problems two_reports) = Some 1"
    by code_simp
  have i7: "findIndex (\<lambda>q. id' q = 7) (problems two_reports) = None"
    by code_simp
  have nv: "\<not> valid_status (lookup bogus ''status'')"
    by code_simp
  note t2 = path_segment_spec [where seg = "''2abc''" and p = "pothole_record\<lparr>id' := 2\<rparr>" and s = two_reports
      and body = empty_strings and now = 3000 and i = 1, unfolded Let_def an]
  note t2b = path_segment_spec [where seg = "''2abc''" and p = "pothole_record\<lparr>id' := 2\<rparr>" and s = two_reports
      and body = bogus and now = 3000 and i = 1, unfolded Let_def an]
  note t7 = path_segment_spec [where seg = "''7abc''" and p = "pothole_record" and s = two_reports
      and body = empty_strings and now = 3000 and i = 1, unfolded Let_def bn]
  note tn = path_segment_spec [where seg = "''abc''" and p = "pothole_record" and s = two_reports
      and body = empty_strings and now = 3000 and i = 1]
  from t2 a have "id_is ''2abc'' (pothole_record\<lparr>id' := 2\<rparr>)"
    by simp
  moreover from t2 a i2 have g: "get_problem ''2abc'' two_reports = Inr (problems two_reports ! 1)"
    and "id' (problems two_reports ! 1) = 2"
    by blast+
  moreover from t2 a i2 have "delete_problem ''2abc'' two_reports
      = (Inr (problems two_reports ! 1),
         two_reports\<lparr>problems := splice1 1 (problems two_reports)\<rparr>)"
    by blast
  then have "map id' (problems (snd (delete_problem ''2abc'' two_reports)))
      = map id' (splice1 1 (problems two_reports))"
    by simp
  then have "map id' (problems (snd (delete_problem ''2abc'' two_reports))) = [1]"
    by (simp only:) code_simp
  moreover from t2 a i2 have "post_upvote ''2abc'' 3000 two_reports
      = (Inr ((problems two_reports ! 1)\<lparr>upvotes := upvotes (problems two_reports ! 1) + 1,
                                          updatedAt := 3000\<rparr>),
         two_reports\<lparr>problems := (problems two_reports)
           [1 := (problems two_reports ! 1)\<lparr>upvotes := upvotes (problems two_reports ! 1) + 1,
                                             updatedAt := 3000\<rparr>]\<rparr>)"
    by blast
  then have u: "problems (snd (post_upvote ''2abc'' 3000 two_reports))
      = (problems two_reports)
           [1 := (problems two_reports ! 1)\<lparr>upvotes := upvotes (problems two_reports ! 1) + 1,
                                             updatedAt := 3000\<rparr>]"
    by simp
  have "map upvotes (problems (snd (post_upvote ''2abc'' 3000 two_reports))) = [0, 1]"
    "map updatedAt (problems (snd (post_upvote ''2abc'' 3000 two_reports))) = [1000, 3000]"
    unfolding u by code_simp+
  moreover from t2 a i2 have "\<exists>r. put_problem ''2abc'' empty_strings 3000 two_reports
      = (Inr r, two_reports\<lparr>problems := (problems two_reports)[1 := r]\<rparr>)
      \<and> r = (problems two_reports ! 1)
           \<lparr>title := (if truthy (lookup empty_strings ''title'')
                      then lookup empty_strings ''title'' else title (problems two_reports ! 1)),
            description := (if truthy (lookup empty_strings ''description'')
                      then lookup empty_strings ''description''
                      else description (problems two_reports ! 1)),
            category := (if truthy (lookup empty_strings ''category'')
                      then lookup empty_strings ''category''
                      else category (problems two_reports ! 1)),
            location := (if truthy (lookup empty_strings ''location'')
                      then lookup empty_strings ''location''
                      else location (problems two_reports ! 1)),
            status := (if truthy (lookup empty_strings ''status'')
                      then lookup empty_strings ''status'' else status (problems two_reports ! 1)),
            updatedAt := 3000\<rparr>"
    by blast
  then obtain r where "problems (snd (put_problem ''2abc'' empty_strings 3000 two_reports))
      = (problems two_reports)[1 := r]" and "updatedAt r = 3000"
    by auto
  then have pu: "map updatedAt (problems (snd (put_problem ''2abc'' empty_strings 3000 two_reports)))
      = (map updatedAt (problems two_reports))[1 := 3000]"
    by (simp add: map_update)
  have "(map updatedAt (problems two_reports))[1 := 3000] = [1000, 3000]"
    by code_simp
  with pu have "map updatedAt (problems (snd (put_problem ''2abc'' empty_strings 3000 two_reports)))
      = [1000, 3000]"
    by (rule trans)
  moreover from t2b a i2 nv
  have "patch_status ''2abc'' bogus 3000 two_reports = (Inl InvalidInput, two_reports)"
    by presburger
  moreover from t7 b i7
  have "post_upvote ''7abc'' 3000 two_reports = (Inl NotFound, two_reports)"
    by blast
  moreover from tn c have "get_problem ''abc'' two_reports = Inl NotFound"
    and "delete_problem ''abc'' two_reports = (Inl NotFound, two_reports)"
    by blast+
  ultimately show ?thesis
    by blast
qed

end
